theory Spec2Isabelle
  imports Main
begin

section \<open>Realtime channel multiplexer: data\<close>

text \<open>
  The class \<open>AvanzaRealTime\<close> wires RxJS subjects together in its constructor. Every
  subject is subscribed there, before any event can arrive, and every reaction runs
  synchronously inside the \<open>next\<close> call that triggers it. The class is therefore a
  state machine: one field per \<open>BehaviorSubject\<close> (its current value), one field per
  latest value kept by \<open>combineLatest\<close> / \<open>withLatestFrom\<close>, and a log of the
  frames handed to \<open>socket.send\<close>. The events are the socket's \<open>open\<close>,
  \<open>close\<close> and \<open>message\<close> events and the caller's \<open>next\<close> calls on the two
  public subjects \<open>authSession$\<close> and \<open>addSubscription$\<close>.

  A \<open>message\<close> event carries the array that \<open>JSON.parse\<close> returns; payloads that do
  not parse to an array are outside the model. The frame log holds what is passed to
  \<open>socket.send\<close>; what the transport does with it is outside the model as well.
\<close>

datatype Channels =
  ACCOUNTS | QUOTES | ORDERDEPTHS | TRADES | BROKERTRADESUMMARY | POSITIONS | ORDERS | DEALS

fun channel_value :: "Channels \<Rightarrow> string" where
  "channel_value ACCOUNTS = ''accounts''"
| "channel_value QUOTES = ''quotes''"
| "channel_value ORDERDEPTHS = ''orderdepths''"
| "channel_value TRADES = ''trades''"
| "channel_value BROKERTRADESUMMARY = ''brokertradesummary''"
| "channel_value POSITIONS = ''positions''"
| "channel_value ORDERS = ''orders''"
| "channel_value DEALS = ''deals''"

record SessionAuth =
  securityToken :: string
  authenticationSession :: string
  pushSubscriptionId :: string

text \<open>The value pushed into \<open>addSubscription$\<close>: \<open>{ channel: Channels; ids: string[] }\<close>.\<close>

record subscription_request =
  sub_channel :: Channels
  sub_ids :: "string list"

text \<open>
  The three shapes of outbound frame. Constant fields (versions, connection types) are
  left out. A \<open>clientId\<close> of \<open>None\<close> is JavaScript's \<open>null\<close>, the initial value of
  \<open>socketClientId$\<close>. The flag of \<open>MetaConnect\<close> records whether the frame carries
  \<open>advice: { timeout: 0 }\<close> (the connect sent after a handshake does).
\<close>

datatype out_frame =
  MetaHandshake int string
| MetaConnect int "string option" bool
| MetaSubscribe int "string option" string

fun frame_id :: "out_frame \<Rightarrow> int" where
  "frame_id (MetaHandshake n _) = n"
| "frame_id (MetaConnect n _ _) = n"
| "frame_id (MetaSubscribe n _ _) = n"

fun frame_channel :: "out_frame \<Rightarrow> string" where
  "frame_channel (MetaHandshake _ _) = ''/meta/handshake''"
| "frame_channel (MetaConnect _ _ _) = ''/meta/connect''"
| "frame_channel (MetaSubscribe _ _ _) = ''/meta/subscribe''"

text \<open>The subscription paths of the subscribe frames of a log, in send order.\<close>

fun subscribe_paths :: "out_frame list \<Rightarrow> string list" where
  "subscribe_paths [] = []"
| "subscribe_paths (MetaSubscribe _ _ p # fs) = p # subscribe_paths fs"
| "subscribe_paths (_ # fs) = subscribe_paths fs"

text \<open>
  One element of the parsed inbound array. The handler reads \<open>channel\<close>,
  \<open>successful\<close> and \<open>clientId\<close>; the rest of the frame is the opaque \<open>in_data\<close>.
\<close>

record in_frame =
  in_channel :: string
  in_successful :: bool
  in_clientId :: string
  in_data :: string

record rt_state =
  socketMessageCount :: int
  socketClientId :: "string option"
  isSocketAuth :: bool
  isSocketOpen :: "bool option"
  authSession :: "SessionAuth option"
  addSubscription :: "subscription_request option"
  subscriptions :: "subscription_request option list"
  messages :: "in_frame list"
  sent :: "out_frame list"

text \<open>
  The state right after the constructor: \<open>socketMessageCount$\<close> holds 1,
  \<open>socketClientId$\<close> and \<open>addSubscription$\<close> hold \<open>null\<close>, \<open>isSocketAuth$\<close> holds
  \<open>false\<close>, \<open>isSocketOpen$\<close> and \<open>authSession$\<close> have not emitted. \<open>subscriptions$\<close>
  is the \<open>scan\<close> over \<open>addSubscription$\<close> as a subscriber from construction sees it:
  its first entry is the subject's initial \<open>null\<close>.
\<close>

definition rt_init :: rt_state where
  "rt_init =
     \<lparr> socketMessageCount = 1, socketClientId = None, isSocketAuth = False,
       isSocketOpen = None, authSession = None, addSubscription = None,
       subscriptions = [None], messages = [], sent = [] \<rparr>"

section \<open>Realtime channel multiplexer: reactions\<close>

text \<open>
  \<open>onSocketSend$.next(frame)\<close> reaches two subscribers in subscription order: the first
  pushes \<open>socketMessageCount$.value + 1\<close>, the second calls
  \<open>socket.send(JSON.stringify([frame]))\<close>.
\<close>

definition onSocketSend :: "rt_state \<Rightarrow> out_frame \<Rightarrow> rt_state" where
  "onSocketSend s f =
     s\<lparr> socketMessageCount := socketMessageCount s + 1, sent := sent s @ [f] \<rparr>"

text \<open>
  \<open>onSocketAuth$\<close> with \<open>withLatestFrom(socketMessageCount$, authSession$)\<close> and the
  filter on the session: the handshake frame takes the counter as its id.
\<close>

definition onSocketAuth :: "rt_state \<Rightarrow> rt_state" where
  "onSocketAuth s =
     (case authSession s of
        None \<Rightarrow> s
      | Some a \<Rightarrow> onSocketSend s (MetaHandshake (socketMessageCount s) (pushSubscriptionId a)))"

text \<open>
  \<open>combineLatest(isSocketOpen$, authSession$)\<close> with its filter
  \<open>isSocketOpen && !!authSession\<close>, run after either input has changed.
\<close>

definition socketOpenAndSession :: "rt_state \<Rightarrow> rt_state" where
  "socketOpenAndSession s =
     (if isSocketOpen s = Some True \<and> authSession s \<noteq> None then onSocketAuth s else s)"

text \<open>JavaScript's \<open>Array.prototype.join\<close> on an array of strings.\<close>

fun join :: "string \<Rightarrow> string list \<Rightarrow> string" where
  "join sep [] = []"
| "join sep [x] = x"
| "join sep (x # y # ys) = x @ sep @ join sep (y # ys)"

text \<open>
  The body of the \<open>map\<close> of the subscription pipeline. \<open>count\<close> and \<open>clientId\<close> are the
  values \<open>withLatestFrom\<close> hands over when the pipeline fires; the loop over the ids
  uses the same two values for every frame it sends.
\<close>

definition account_scoped :: "Channels \<Rightarrow> bool" where
  "account_scoped c = (c \<in> set [ORDERS, DEALS, POSITIONS])"

definition sendSubscription :: "rt_state \<Rightarrow> subscription_request \<Rightarrow> rt_state" where
  "sendSubscription s sub =
     (let count = socketMessageCount s; clientId = socketClientId s in
      if account_scoped (sub_channel sub) then
        onSocketSend s
          (MetaSubscribe count clientId
             (''/'' @ channel_value (sub_channel sub) @ join '','' (sub_ids sub)))
      else
        foldl (\<lambda>s' i. onSocketSend s'
                 (MetaSubscribe count clientId
                    (''/'' @ channel_value (sub_channel sub) @ ''/'' @ i)))
          s (sub_ids sub))"

text \<open>
  \<open>combineLatest(addSubscription$, isSocketAuth$.pipe(distinctUntilChanged()))\<close> with
  its filter \<open>subscription && isSocketAuth\<close>, run after either input has emitted. Only
  the latest value of \<open>addSubscription$\<close> is at hand.
\<close>

definition subscriptionPipeline :: "rt_state \<Rightarrow> rt_state" where
  "subscriptionPipeline s =
     (case addSubscription s of
        None \<Rightarrow> s
      | Some sub \<Rightarrow> if isSocketAuth s then sendSubscription s sub else s)"

text \<open>
  \<open>isSocketAuth$.next(v)\<close>. \<open>distinctUntilChanged\<close> is subscribed from construction,
  so the value it compares with is the subject's current one.
\<close>

definition isSocketAuth_next :: "rt_state \<Rightarrow> bool \<Rightarrow> rt_state" where
  "isSocketAuth_next s v =
     (if v = isSocketAuth s then s else subscriptionPipeline (s\<lparr> isSocketAuth := v \<rparr>))"

text \<open>
  One turn of the \<open>for\<close> loop over an inbound array. \<open>c0\<close> and \<open>cid0\<close> are the
  counter and the client id that \<open>withLatestFrom\<close> handed over when the array arrived.
\<close>

definition handleMessage :: "int \<Rightarrow> string option \<Rightarrow> rt_state \<Rightarrow> in_frame \<Rightarrow> rt_state" where
  "handleMessage c0 cid0 s m =
     (if in_channel m = ''/meta/handshake'' then
        (if in_successful m then
           onSocketSend (s\<lparr> socketClientId := Some (in_clientId m) \<rparr>)
             (MetaConnect c0 (Some (in_clientId m)) True)
         else s)
      else if in_channel m = ''/meta/connect'' then
        onSocketSend (isSocketAuth_next s True) (MetaConnect c0 cid0 False)
      else s\<lparr> messages := messages s @ [m] \<rparr>)"

definition onSocketMessage :: "rt_state \<Rightarrow> in_frame list \<Rightarrow> rt_state" where
  "onSocketMessage s ms = foldl (handleMessage (socketMessageCount s) (socketClientId s)) s ms"

datatype event =
  SocketOpen
| SocketClose
| SocketMessage "in_frame list"
| AuthSessionNext SessionAuth
| AddSubscriptionNext subscription_request

fun step :: "rt_state \<Rightarrow> event \<Rightarrow> rt_state" where
  "step s SocketOpen = socketOpenAndSession (s\<lparr> isSocketOpen := Some True \<rparr>)"
| "step s SocketClose = socketOpenAndSession (s\<lparr> isSocketOpen := Some False \<rparr>)"
| "step s (SocketMessage ms) = onSocketMessage s ms"
| "step s (AuthSessionNext a) = socketOpenAndSession (s\<lparr> authSession := Some a \<rparr>)"
| "step s (AddSubscriptionNext sub) =
     subscriptionPipeline
       (s\<lparr> addSubscription := Some sub, subscriptions := subscriptions s @ [Some sub] \<rparr>)"

definition run :: "rt_state \<Rightarrow> event list \<Rightarrow> rt_state" where
  "run s evs = foldl step s evs"

text \<open>
  For stating properties: the paths of the frames a request is sent as, those of the
  latest request if there is one, and the events that carry a \<open>/meta/connect\<close> frame
  (the handler reads only the channel of such a frame, not its \<open>successful\<close> field)
  or add a request.
\<close>

definition subscription_paths :: "subscription_request \<Rightarrow> string list" where
  "subscription_paths sub =
     (if account_scoped (sub_channel sub) then
        [''/'' @ channel_value (sub_channel sub) @ join '','' (sub_ids sub)]
      else map (\<lambda>i. ''/'' @ channel_value (sub_channel sub) @ ''/'' @ i) (sub_ids sub))"

definition latest_paths :: "subscription_request option \<Rightarrow> string list" where
  "latest_paths r = (case r of None \<Rightarrow> [] | Some sub \<Rightarrow> subscription_paths sub)"

definition is_connect :: "in_frame \<Rightarrow> bool" where
  "is_connect m = (in_channel m = ''/meta/connect'')"

fun carries_connect :: "event \<Rightarrow> bool" where
  "carries_connect (SocketMessage ms) = list_ex is_connect ms"
| "carries_connect _ = False"

fun is_addSubscription :: "event \<Rightarrow> bool" where
  "is_addSubscription (AddSubscriptionNext _) = True"
| "is_addSubscription _ = False"

text \<open>Values for the concrete runs of the multiplexer.\<close>

definition example_session :: SessionAuth where
  "example_session =
     \<lparr> securityToken = ''tok'', authenticationSession = ''sess'', pushSubscriptionId = ''push'' \<rparr>"

definition handshake_ok :: in_frame where
  "handshake_ok =
     \<lparr> in_channel = ''/meta/handshake'', in_successful = True, in_clientId = ''C1'',
       in_data = [] \<rparr>"

definition connect_ok :: in_frame where
  "connect_ok =
     \<lparr> in_channel = ''/meta/connect'', in_successful = True, in_clientId = [], in_data = [] \<rparr>"

definition connect_failed :: in_frame where
  "connect_failed =
     \<lparr> in_channel = ''/meta/connect'', in_successful = False, in_clientId = [], in_data = [] \<rparr>"

definition authenticated_trace :: "event list" where
  "authenticated_trace =
     [AuthSessionNext example_session, SocketOpen, SocketMessage [handshake_ok],
      SocketMessage [connect_ok]]"

definition quotes_5_6 :: subscription_request where
  "quotes_5_6 = \<lparr> sub_channel = QUOTES, sub_ids = [''5'', ''6''] \<rparr>"

definition orders_5_6 :: subscription_request where
  "orders_5_6 = \<lparr> sub_channel = ORDERS, sub_ids = [''5'', ''6''] \<rparr>"

definition quotes_1 :: subscription_request where
  "quotes_1 = \<lparr> sub_channel = QUOTES, sub_ids = [''1''] \<rparr>"

definition quotes_2 :: subscription_request where
  "quotes_2 = \<lparr> sub_channel = QUOTES, sub_ids = [''2''] \<rparr>"

section \<open>Session authenticator: data\<close>

record Credentials =
  username :: string
  password :: string
  totp :: "string option"
  totpSecret :: string

definition MIN_INACTIVE_MINUTES :: int where
  "MIN_INACTIVE_MINUTES = 30"

definition MAX_INACTIVE_MINUTES :: int where
  "MAX_INACTIVE_MINUTES = 60 * 24"

text \<open>The three strings \<open>checkCredentials\<close> throws.\<close>

datatype validation_error = MissingUsername | MissingPassword | TimeoutNotInRange

text \<open>
  \<open>checkCredentials\<close>: \<open>!credentials.username\<close> holds of the empty string. The
  function returns nothing; it throws at the first check that fails. The timeout is a
  whole number of minutes.
\<close>

definition checkCredentials :: "Credentials \<Rightarrow> int \<Rightarrow> validation_error + unit" where
  "checkCredentials credentials authenticationTimeout =
     (if username credentials = [] then Inl MissingUsername
      else if password credentials = [] then Inl MissingPassword
      else if \<not> (authenticationTimeout \<ge> MIN_INACTIVE_MINUTES
                  \<and> authenticationTimeout \<le> MAX_INACTIVE_MINUTES)
      then Inl TimeoutNotInRange
      else Inr ())"



text \<open>
  Parsed JSON. An object is the map from its keys to their values; a key that is absent
  reads as \<open>None\<close> (JavaScript's \<open>undefined\<close>).
\<close>

datatype json =
  JNull | JBool bool | JNum int | JStr string | JArr "json list" | JObj "string \<Rightarrow> json option"

type_synonym json_object = "string \<Rightarrow> json option"

text \<open>
  What \<open>fetch\<close> and \<open>response.json()\<close> give: the promise rejects (network failure), or
  a response arrives with its status, its headers and its body. The body is \<open>None\<close> when
  it is not JSON (\<open>response.json()\<close> rejects), else the own properties of the parsed
  value.
\<close>

datatype fetch_result =
  FetchRejected string
| FetchResponse int "json_object option" "string \<Rightarrow> string option"

text \<open>
  A value thrown into a pipeline: the \<open>response.json\<close> object of a response whose
  \<open>statusCode\<close> is not 200, or anything else (a string, an \<open>Error\<close>).
\<close>

datatype failure = ResponseJson json_object | Thrown string

text \<open>
  \<open>request\<close>: the resolved value is \<open>{ json: { statusCode: response.status, ...body },
  headers }\<close>. The spread writes the body's properties after \<open>statusCode\<close>, so they
  win: the merge is \<open>++\<close> with the body on the right.
\<close>

definition request :: "fetch_result \<Rightarrow> failure + (json_object \<times> (string \<Rightarrow> string option))" where
  "request r =
     (case r of
        FetchRejected e \<Rightarrow> Inl (Thrown e)
      | FetchResponse st None hs \<Rightarrow> Inl (Thrown ''invalid json response body'')
      | FetchResponse st (Some body) hs \<Rightarrow> Inr ([''statusCode'' \<mapsto> JNum st] ++ body, hs))"

text \<open>
  The \<open>tap\<close> after each of the two requests of the login sequence:
  \<open>if (response.json.statusCode !== 200) throw response.json\<close>. Only the number
  200 is strictly equal to 200.
\<close>

fun is_number_200 :: "json option \<Rightarrow> bool" where
  "is_number_200 (Some (JNum n)) = (n = 200)"
| "is_number_200 _ = False"

definition check_status ::
  "json_object \<times> (string \<Rightarrow> string option) \<Rightarrow> failure + (json_object \<times> (string \<Rightarrow> string option))" where
  "check_status response =
     (if \<not> is_number_200 (fst response ''statusCode'') then Inl (ResponseJson (fst response))
      else Inr response)"

section \<open>Retry policy\<close>

record retry_config =
  maxRetryAttempts :: int
  scalingDuration :: int
  excludedStatusCodes :: "int list"

text \<open>The defaults of the two copies of \<open>genericRetryStrategy\<close>, and the one call site.\<close>

definition strategy_defaults_monolith :: retry_config where
  "strategy_defaults_monolith =
     \<lparr> maxRetryAttempts = 3, scalingDuration = 1000, excludedStatusCodes = [401] \<rparr>"

definition strategy_defaults_service :: retry_config where
  "strategy_defaults_service =
     \<lparr> maxRetryAttempts = 3, scalingDuration = 1000, excludedStatusCodes = [401, 400] \<rparr>"

definition login_retry :: "retry_config \<Rightarrow> retry_config" where
  "login_retry defaults = defaults\<lparr> maxRetryAttempts := 10, scalingDuration := 10000 \<rparr>"

text \<open>\<open>error.statusCode\<close>: a property of the thrown response object, else \<open>undefined\<close>.\<close>

fun statusCode :: "failure \<Rightarrow> json option" where
  "statusCode (ResponseJson obj) = obj ''statusCode''"
| "statusCode (Thrown _) = None"

text \<open>\<open>excludedStatusCodes.includes(v)\<close>: only a number can equal a number of the array.\<close>

fun array_includes :: "int list \<Rightarrow> json option \<Rightarrow> bool" where
  "array_includes codes (Some (JNum n)) = (n \<in> set codes)"
| "array_includes codes _ = False"

datatype retry_decision = ThrowError failure | Timer int

text \<open>
  The function given to \<open>mergeMap\<close>: \<open>i\<close> is the index of the error among the errors
  of the subscription, from 0. \<open>ThrowError e\<close> is \<open>throwError(JSON.stringify(e, null, 4))\<close>.
\<close>

definition genericRetryStrategy :: "retry_config \<Rightarrow> failure \<Rightarrow> nat \<Rightarrow> retry_decision" where
  "genericRetryStrategy cfg error i =
     (let isExcludedErrorCode = array_includes (excludedStatusCodes cfg) (statusCode error);
          retryAttempt = int i + 1
      in if retryAttempt > maxRetryAttempts cfg \<or> isExcludedErrorCode then ThrowError error
         else Timer (retryAttempt * scalingDuration cfg))"

text \<open>
  \<open>source.pipe(retryWhen(genericRetryStrategy(cfg)))\<close> run against a script of attempts:
  each subscription to the source either fails (\<open>Inl\<close>) or emits (\<open>Inr\<close>). The
  result lists the delays waited, in order, and how the run ends: with the emitted value,
  with the error the policy propagates, or still waiting when the script is used up.
\<close>

datatype 'a retry_end = Emitted 'a | Propagated failure | Pending

fun retryWhen :: "retry_config \<Rightarrow> nat \<Rightarrow> (failure + 'a) list \<Rightarrow> int list \<times> 'a retry_end" where
  "retryWhen cfg i [] = ([], Pending)"
| "retryWhen cfg i (Inr v # rest) = ([], Emitted v)"
| "retryWhen cfg i (Inl e # rest) =
     (case genericRetryStrategy cfg e i of
        ThrowError e' \<Rightarrow> ([], Propagated e')
      | Timer d \<Rightarrow> (d # fst (retryWhen cfg (Suc i) rest), snd (retryWhen cfg (Suc i) rest)))"

text \<open>
  The failure's status code is one of the excluded ones; and the failure thrown for a
  response with the given status and an empty JSON object as body.
\<close>

definition excluded :: "retry_config \<Rightarrow> failure \<Rightarrow> bool" where
  "excluded cfg e = array_includes (excludedStatusCodes cfg) (statusCode e)"

definition response_failure :: "int \<Rightarrow> failure" where
  "response_failure st = ResponseJson [''statusCode'' \<mapsto> JNum st]"

section \<open>Session authenticator: the login pipeline\<close>

text \<open>
  The repository holds two variants of the class \<open>Avanza\<close>. The first (the
  \<open>Monolith\<close>) builds one login pipeline in its constructor, subscribed for the
  lifetime of the object, and pushes each result into \<open>authSession$\<close>. The second (the
  \<open>Service\<close>) builds a pipeline of the same operators in every call of
  \<open>authenticate()\<close> and returns its first value as a promise. Both are state machines
  over the same state: the events are the caller's calls, the responses of the HTTP
  requests issued, and the passing of (virtual) time.
\<close>

datatype variant = Monolith | Service

text \<open>The code \<open>totp(secret)\<close> computed at a given time; the generator is a library.\<close>

datatype totp_code = TotpCode string nat

text \<open>
  The two requests of the login sequence: the POST of
  \<open>{ maxInactiveMinutes, password, username }\<close> to the authentication path, and the POST of
  \<open>{ method: "TOTP", totpCode }\<close> to the TOTP path with the cookie built from
  \<open>twoFactorLogin.transactionId\<close>.
\<close>

datatype http_request =
  LoginRequest int string string
| TotpRequest totp_code "json option"

text \<open>What the second \<open>switchMap\<close> emits: \<open>{ auth: { ...json }, twoFactorLogin, securityToken }\<close>.\<close>

record auth_value =
  av_auth :: json_object
  av_twoFactorLogin :: "json option"
  av_securityToken :: "string option"

text \<open>The value of the promise of the service's \<open>authenticate()\<close> (its last \<open>map\<close>).\<close>

definition promise_value :: "auth_value \<Rightarrow> string option \<times> json option \<times> json option" where
  "promise_value v =
     (av_securityToken v, av_auth v ''authenticationSession'', av_auth v ''pushSubscriptionId'')"

datatype phase = Subscribed | BackingOff | Resolved auth_value | Rejected failure

fun is_subscribed :: "phase \<Rightarrow> bool" where
  "is_subscribed Subscribed = True"
| "is_subscribed _ = False"

text \<open>
  One subscription of the operator chain. \<open>latest_credentials\<close> and
  \<open>latest_totpCode\<close> are the values held by the two \<open>withLatestFrom\<close>;
  \<open>login_inflight\<close> and \<open>totp_inflight\<close> are the requests whose responses the two
  \<open>switchMap\<close> are subscribed to; \<open>error_count\<close> is the index \<open>mergeMap\<close> gives the
  next error.
\<close>

record pipeline =
  phase :: phase
  latest_credentials :: "Credentials option"
  latest_totpCode :: "totp_code option"
  login_inflight :: "nat option"
  totp_inflight :: "(nat \<times> json option) option"
  error_count :: nat

definition fresh_pipeline :: pipeline where
  "fresh_pipeline =
     \<lparr> phase = Subscribed, latest_credentials = None, latest_totpCode = None,
       login_inflight = None, totp_inflight = None, error_count = 0 \<rparr>"

datatype timer = RenewTimer | RetryTimer nat

text \<open>
  \<open>setCredentials_log\<close> is what a new subscriber of the credentials stream is replayed;
  \<open>requests\<close> logs every request issued, in order, with the pipeline that issued it;
  \<open>subscribers\<close> lists the subscribed pipelines in the order of their subscriptions;
  \<open>timers\<close> are the pending timers with their due times; \<open>credentials_subscription\<close>
  tells whether the service constructor's own subscription to the credentials stream is
  still alive (it has no error handler).
\<close>

record auth_state =
  authenticationTimeout :: int
  clock :: nat
  setCredentials_log :: "Credentials list"
  requests :: "(nat \<times> http_request) list"
  pipelines :: "pipeline list"
  subscribers :: "nat list"
  timers :: "(nat \<times> timer) list"
  authSession_latest :: "auth_value option"
  credentials_subscription :: bool

fun validation_message :: "validation_error \<Rightarrow> string" where
  "validation_message MissingUsername = ''Missing credentials.username.''"
| "validation_message MissingPassword = ''Missing credentials.password.''"
| "validation_message TimeoutNotInRange = ''Session timeout not in range 30 - 1440 minutes.''"

text \<open>
  The check on the credentials stream. The service checks every value against its
  \<open>authenticationTimeout$\<close>, a subject that holds \<open>MAX_INACTIVE_MINUTES\<close> and is never
  written; the monolith's stream carries no check (its constructor has checked).
\<close>

fun stream_check :: "variant \<Rightarrow> Credentials \<Rightarrow> validation_error + unit" where
  "stream_check Service c = checkCredentials c MAX_INACTIVE_MINUTES"
| "stream_check Monolith c = Inr ()"

fun strategy_defaults :: "variant \<Rightarrow> retry_config" where
  "strategy_defaults Monolith = strategy_defaults_monolith"
| "strategy_defaults Service = strategy_defaults_service"

definition update_pipeline :: "auth_state \<Rightarrow> nat \<Rightarrow> (pipeline \<Rightarrow> pipeline) \<Rightarrow> auth_state" where
  "update_pipeline s k f = s\<lparr> pipelines := (pipelines s)[k := f (pipelines s ! k)] \<rparr>"

text \<open>
  An error reaches \<open>retryWhen\<close>: the source is unsubscribed, and the strategy either
  propagates the error (the promise rejects; in the monolith nobody handles it) or starts
  \<open>timer(retryAttempt * scalingDuration)\<close>.
\<close>

definition pipeline_error :: "variant \<Rightarrow> auth_state \<Rightarrow> nat \<Rightarrow> failure \<Rightarrow> auth_state" where
  "pipeline_error v s k e =
     (let p = pipelines s ! k;
          s' = s\<lparr> subscribers := filter (\<lambda>j. j \<noteq> k) (subscribers s) \<rparr>;
          stopped = p\<lparr> latest_credentials := None, latest_totpCode := None,
                      login_inflight := None, totp_inflight := None,
                      error_count := Suc (error_count p) \<rparr>
      in case genericRetryStrategy (login_retry (strategy_defaults v)) e (error_count p) of
           ThrowError e' \<Rightarrow> update_pipeline s' k (\<lambda>_. stopped\<lparr> phase := Rejected e' \<rparr>)
         | Timer d \<Rightarrow>
             update_pipeline (s'\<lparr> timers := timers s' @ [(clock s' + nat d, RetryTimer k)] \<rparr>) k
               (\<lambda>_. stopped\<lparr> phase := BackingOff \<rparr>))"

text \<open>The first \<open>switchMap\<close>: a new login request replaces the one in flight.\<close>

definition issue_login :: "auth_state \<Rightarrow> nat \<Rightarrow> Credentials \<Rightarrow> auth_state" where
  "issue_login s k c =
     update_pipeline
       (s\<lparr> requests := requests s @
            [(k, LoginRequest (authenticationTimeout s) (password c) (username c))] \<rparr>)
       k (\<lambda>p. p\<lparr> login_inflight := Some (length (requests s)) \<rparr>)"

text \<open>
  A value of \<open>authenticate$\<close> reaches the pipeline: \<open>withLatestFrom(credentials$)\<close>
  drops it when no credentials have arrived.
\<close>

definition authenticate_emits :: "auth_state \<Rightarrow> nat \<Rightarrow> auth_state" where
  "authenticate_emits s k =
     (if is_subscribed (phase (pipelines s ! k)) then
        (case latest_credentials (pipelines s ! k) of
           None \<Rightarrow> s
         | Some c \<Rightarrow> issue_login s k c)
      else s)"

text \<open>
  The credentials stream emits to the pipeline's two inner subscriptions (the one of
  \<open>totpCode$\<close> first): the check may throw into the pipeline, else both latest values
  are replaced.
\<close>

definition credentials_emit :: "variant \<Rightarrow> auth_state \<Rightarrow> nat \<Rightarrow> Credentials \<Rightarrow> auth_state" where
  "credentials_emit v s k c =
     (if is_subscribed (phase (pipelines s ! k)) then
        (case stream_check v c of
           Inl err \<Rightarrow> pipeline_error v s k (Thrown (validation_message err))
         | Inr _ \<Rightarrow>
             update_pipeline s k
               (\<lambda>p. p\<lparr> latest_totpCode := Some (TotpCode (totpSecret c) (clock s)),
                       latest_credentials := Some c \<rparr>))
      else s)"

text \<open>
  Subscribing the chain (at first, and again when a retry timer fires). The credentials
  stream hands a new subscriber its latest value only: the service's \<open>combineLatest\<close>
  subscribes to the replaying \<open>onSetCredentials$\<close> before \<open>authenticationTimeout$\<close>,
  so of the replayed values only the last is combined and emitted; the monolith's stream
  is a \<open>BehaviorSubject\<close>. Then \<open>authenticate$\<close>, a \<open>BehaviorSubject\<close>, emits its
  current value.
\<close>

definition subscribe_pipeline :: "variant \<Rightarrow> auth_state \<Rightarrow> nat \<Rightarrow> auth_state" where
  "subscribe_pipeline v s k =
     (let s1 = update_pipeline (s\<lparr> subscribers := filter (\<lambda>j. j \<noteq> k) (subscribers s) @ [k] \<rparr>) k
                 (\<lambda>p. p\<lparr> phase := Subscribed, latest_credentials := None,
                         latest_totpCode := None, login_inflight := None,
                         totp_inflight := None \<rparr>);
          s2 = (if setCredentials_log s1 = [] then s1
                else credentials_emit v s1 k (last (setCredentials_log s1)))
      in authenticate_emits s2 k)"

text \<open>
  The value of the chain. The service's \<open>first()\<close> resolves the promise and
  unsubscribes. The monolith pushes the value into \<open>authSession$\<close>, where
  \<open>delay((_authenticationTimeout - 1) * 60 * 1000)\<close> holds it back before
  \<open>authenticate$.next()\<close> (\<open>delay\<close> takes the absolute value of its argument).
\<close>

definition renewal_delay :: "int \<Rightarrow> nat" where
  "renewal_delay t = nat \<bar>(t - 1) * 60 * 1000\<bar>"

definition authSession_next :: "auth_state \<Rightarrow> auth_value option \<Rightarrow> auth_state" where
  "authSession_next s x =
     (case x of
        None \<Rightarrow> s\<lparr> authSession_latest := None \<rparr>
      | Some value \<Rightarrow>
          s\<lparr> authSession_latest := Some value,
             timers := timers s @
               [(clock s + renewal_delay (authenticationTimeout s), RenewTimer)] \<rparr>)"

fun deliver :: "variant \<Rightarrow> auth_state \<Rightarrow> nat \<Rightarrow> auth_value \<Rightarrow> auth_state" where
  "deliver Service s k value =
     update_pipeline (s\<lparr> subscribers := filter (\<lambda>j. j \<noteq> k) (subscribers s) \<rparr>) k
       (\<lambda>p. p\<lparr> phase := Resolved value, latest_credentials := None, latest_totpCode := None,
               login_inflight := None, totp_inflight := None \<rparr>)"
| "deliver Monolith s k value =
     authSession_next (update_pipeline s k (\<lambda>p. p\<lparr> totp_inflight := None \<rparr>)) (Some value)"

text \<open>
  The response to the login request in flight. On status 200 the second \<open>switchMap\<close>
  reads \<open>twoFactorLogin.transactionId\<close>, which throws a \<open>TypeError\<close> when
  \<open>twoFactorLogin\<close> is \<open>undefined\<close> or \<open>null\<close>, and issues the TOTP request.
\<close>

fun transactionId :: "json option \<Rightarrow> failure + json option" where
  "transactionId None = Inl (Thrown ''TypeError'')"
| "transactionId (Some JNull) = Inl (Thrown ''TypeError'')"
| "transactionId (Some (JObj obj)) = Inr (obj ''transactionId'')"
| "transactionId (Some _) = Inr None"

definition login_response :: "variant \<Rightarrow> auth_state \<Rightarrow> nat \<Rightarrow> fetch_result \<Rightarrow> auth_state" where
  "login_response v s k r =
     (case request r of
        Inl e \<Rightarrow> pipeline_error v s k e
      | Inr response \<Rightarrow>
          (case check_status response of
             Inl e \<Rightarrow> pipeline_error v s k e
           | Inr (obj, hs) \<Rightarrow>
               (case latest_totpCode (pipelines s ! k) of
                  None \<Rightarrow> update_pipeline s k (\<lambda>p. p\<lparr> login_inflight := None \<rparr>)
                | Some code \<Rightarrow>
                    (case transactionId (obj ''twoFactorLogin'') of
                       Inl e \<Rightarrow> pipeline_error v s k e
                     | Inr tid \<Rightarrow>
                         update_pipeline
                           (s\<lparr> requests := requests s @ [(k, TotpRequest code tid)] \<rparr>) k
                           (\<lambda>p. p\<lparr> login_inflight := None,
                                   totp_inflight :=
                                     Some (length (requests s), obj ''twoFactorLogin'') \<rparr>)))))"

definition totp_response ::
  "variant \<Rightarrow> auth_state \<Rightarrow> nat \<Rightarrow> json option \<Rightarrow> fetch_result \<Rightarrow> auth_state" where
  "totp_response v s k twoFactorLogin r =
     (case request r of
        Inl e \<Rightarrow> pipeline_error v s k e
      | Inr response \<Rightarrow>
          (case check_status response of
             Inl e \<Rightarrow> pipeline_error v s k e
           | Inr (obj, hs) \<Rightarrow>
               deliver v s k
                 \<lparr> av_auth = obj, av_twoFactorLogin = twoFactorLogin,
                   av_securityToken = hs ''x-securitytoken'' \<rparr>))"

text \<open>
  A response arrives for request \<open>rid\<close>. It is handled when the pipeline that issued the
  request is still subscribed to it, and dropped otherwise.
\<close>

definition http_response :: "variant \<Rightarrow> auth_state \<Rightarrow> nat \<Rightarrow> fetch_result \<Rightarrow> auth_state" where
  "http_response v s rid r =
     (if rid < length (requests s) then
        (let k = fst (requests s ! rid); p = pipelines s ! k in
         if login_inflight p = Some rid then login_response v s k r
         else (case totp_inflight p of
                 Some (rid', twoFactorLogin) \<Rightarrow>
                   if rid' = rid then totp_response v s k twoFactorLogin r else s
               | None \<Rightarrow> s))
      else s)"

text \<open>A timer fires.\<close>

fun fire :: "variant \<Rightarrow> auth_state \<Rightarrow> timer \<Rightarrow> auth_state" where
  "fire v s RenewTimer = foldl authenticate_emits s (subscribers s)"
| "fire v s (RetryTimer k) = subscribe_pipeline v s k"

text \<open>
  Virtual time. The clock moves forward by \<open>d\<close>, but never past a pending timer: when
  a timer is due in between, the clock stops at the earliest due time and the timers due
  then fire, in the order they were started. A timer started by one of them waits for the
  next advance.
\<close>

definition advance :: "variant \<Rightarrow> auth_state \<Rightarrow> nat \<Rightarrow> auth_state" where
  "advance v s d =
     (let due = filter (\<lambda>x. fst x \<le> clock s + d) (timers s) in
      if due = [] then s\<lparr> clock := clock s + d \<rparr>
      else
        (let u = fold min (map fst due) (fst (hd due));
             s' = s\<lparr> clock := u, timers := filter (\<lambda>x. fst x \<noteq> u) (timers s) \<rparr>
         in foldl (fire v) s' (map snd (filter (\<lambda>x. fst x = u) (timers s)))))"

text \<open>\<open>setCredentials\<close> of the service: \<open>onSetCredentials$.next(credentials)\<close>.\<close>

definition setCredentials :: "auth_state \<Rightarrow> Credentials \<Rightarrow> auth_state" where
  "setCredentials s c =
     (let s1 = s\<lparr> setCredentials_log := setCredentials_log s @ [c],
                  credentials_subscription :=
                    (credentials_subscription s \<and> stream_check Service c = Inr ()) \<rparr>
      in foldl (\<lambda>s' k. credentials_emit Service s' k c) s1 (subscribers s1))"

text \<open>\<open>authenticate()\<close> of the service: a new chain is built and subscribed.\<close>

definition authenticate :: "auth_state \<Rightarrow> auth_state" where
  "authenticate s =
     subscribe_pipeline Service (s\<lparr> pipelines := pipelines s @ [fresh_pipeline] \<rparr>)
       (length (pipelines s))"

text \<open>
  The constructors. The service stores the credentials given, if any, and subscribes to
  its credentials stream. The monolith checks the credentials first and throws at once;
  otherwise it subscribes its one pipeline and ends with \<open>authenticate$.next()\<close>.
\<close>

definition service_new :: "Credentials option \<Rightarrow> int \<Rightarrow> auth_state" where
  "service_new credentials timeout =
     (let log = (case credentials of None \<Rightarrow> [] | Some c \<Rightarrow> [c]) in
      \<lparr> authenticationTimeout = timeout, clock = 0, setCredentials_log = log,
        requests = [], pipelines = [], subscribers = [], timers = [],
        authSession_latest = None,
        credentials_subscription = (log = [] \<or> stream_check Service (last log) = Inr ()) \<rparr>)"

definition monolith_new :: "Credentials \<Rightarrow> int \<Rightarrow> validation_error + auth_state" where
  "monolith_new credentials timeout =
     (case checkCredentials credentials timeout of
        Inl err \<Rightarrow> Inl err
      | Inr _ \<Rightarrow>
          (let s0 = \<lparr> authenticationTimeout = timeout, clock = 0,
                      setCredentials_log = [credentials], requests = [],
                      pipelines = [fresh_pipeline], subscribers = [], timers = [],
                      authSession_latest = None, credentials_subscription = True \<rparr>
           in Inr (foldl authenticate_emits (subscribe_pipeline Monolith s0 0)
                     (subscribers (subscribe_pipeline Monolith s0 0)))))"

datatype auth_event =
  SetCredentials Credentials
| Authenticate
| AuthSessionPush auth_value
| HttpResponse nat fetch_result
| Advance nat

text \<open>
  \<open>SetCredentials\<close> and \<open>Authenticate\<close> are methods of the service only.
  \<open>AuthSessionPush\<close> is a caller pushing into the public subject \<open>authSession$\<close>.
\<close>

fun auth_step :: "variant \<Rightarrow> auth_state \<Rightarrow> auth_event \<Rightarrow> auth_state" where
  "auth_step Service s (SetCredentials c) = setCredentials s c"
| "auth_step Service s Authenticate = authenticate s"
| "auth_step Monolith s (SetCredentials c) = s"
| "auth_step Monolith s Authenticate = s"
| "auth_step v s (AuthSessionPush value) = authSession_next s (Some value)"
| "auth_step v s (HttpResponse rid r) = http_response v s rid r"
| "auth_step v s (Advance d) = advance v s d"

definition auth_run :: "variant \<Rightarrow> auth_state \<Rightarrow> auth_event list \<Rightarrow> auth_state" where
  "auth_run v s evs = foldl (auth_step v) s evs"

text \<open>Values for the concrete runs below.\<close>

definition alice :: Credentials where
  "alice = \<lparr> username = ''alice'', password = ''pw'', totp = None, totpSecret = ''secret'' \<rparr>"

definition login_ok :: fetch_result where
  "login_ok =
     FetchResponse 200
       (Some [''twoFactorLogin'' \<mapsto> JObj [''transactionId'' \<mapsto> JStr ''tx'', ''method'' \<mapsto> JStr ''TOTP'']])
       Map.empty"

definition totp_ok :: fetch_result where
  "totp_ok =
     FetchResponse 200
       (Some [''authenticationSession'' \<mapsto> JStr ''sess'', ''pushSubscriptionId'' \<mapsto> JStr ''push''])
       [''x-securitytoken'' \<mapsto> ''tok'']"

definition status_only :: "int \<Rightarrow> fetch_result" where
  "status_only st = FetchResponse st (Some Map.empty) Map.empty"

text \<open>What a caller of \<open>authenticate()\<close> has got: the promise's value, or the
  \<open>statusCode\<close> of the error it was rejected with.\<close>

fun resolved_with :: "phase \<Rightarrow> (string option \<times> json option \<times> json option) option" where
  "resolved_with (Resolved value) = Some (promise_value value)"
| "resolved_with _ = None"

fun rejected_with :: "phase \<Rightarrow> json option option" where
  "rejected_with (Rejected e) = Some (statusCode e)"
| "rejected_with _ = None"


text \<open>A renewal timer is pending; the event is a caller's push into \<open>authSession$\<close>.\<close>

definition renewal_pending :: "auth_state \<Rightarrow> bool" where
  "renewal_pending s = list_ex (\<lambda>x. snd x = RenewTimer) (timers s)"

fun is_push :: "auth_event \<Rightarrow> bool" where
  "is_push (AuthSessionPush _) = True"
| "is_push _ = False"

definition monolith_authenticated :: "auth_state" where
  "monolith_authenticated =
     (case monolith_new alice 30 of
        Inr s \<Rightarrow> auth_run Monolith s [HttpResponse 1 login_ok, HttpResponse 2 totp_ok]
      | Inl _ \<Rightarrow> service_new None 30)"

section \<open>Realtime channel multiplexer: properties\<close>

lemma run_Nil: "run s [] = s"
  by (simp add: run_def)

lemma subscribe_paths_append:
  "subscribe_paths (xs @ ys) = subscribe_paths xs @ subscribe_paths ys"
  by (induction xs rule: subscribe_paths.induct) simp_all

lemma onSocketSend_simps:
  "sent (onSocketSend s f) = sent s @ [f]"
  "socketMessageCount (onSocketSend s f) = socketMessageCount s + 1"
  "socketClientId (onSocketSend s f) = socketClientId s"
  "isSocketAuth (onSocketSend s f) = isSocketAuth s"
  "isSocketOpen (onSocketSend s f) = isSocketOpen s"
  "authSession (onSocketSend s f) = authSession s"
  "addSubscription (onSocketSend s f) = addSubscription s"
  "subscriptions (onSocketSend s f) = subscriptions s"
  "messages (onSocketSend s f) = messages s"
  by (simp_all add: onSocketSend_def)

lemma per_id_loop:
  "foldl (\<lambda>s' i. onSocketSend s' (MetaSubscribe c cid (pre @ i))) s ids =
     s\<lparr> socketMessageCount := socketMessageCount s + int (length ids),
        sent := sent s @ map (\<lambda>i. MetaSubscribe c cid (pre @ i)) ids \<rparr>"
  by (induction ids arbitrary: s) (simp_all add: onSocketSend_def)

lemma subscribe_paths_map:
  "subscribe_paths (map (\<lambda>i. MetaSubscribe c cid (f i)) ids) = map f ids"
  by (induction ids) simp_all

lemma sendSubscription_eq:
  "sendSubscription s sub =
     s\<lparr> socketMessageCount :=
          socketMessageCount s + int (length (subscription_paths sub)),
        sent := sent s @
          map (MetaSubscribe (socketMessageCount s) (socketClientId s)) (subscription_paths sub) \<rparr>"
  using per_id_loop [of "socketMessageCount s" "socketClientId s" "''/'' @ channel_value (sub_channel sub) @ ''/''" s "sub_ids sub"]
  by (simp add: sendSubscription_def subscription_paths_def Let_def onSocketSend_def comp_def)

lemma subscribe_paths_Subscribe:
  "subscribe_paths (map (MetaSubscribe c cid) ps) = ps"
  by (induction ps) simp_all

lemma subscriptionPipeline_eq:
  "subscriptionPipeline s =
     (if isSocketAuth s then
        s\<lparr> socketMessageCount :=
             socketMessageCount s + int (length (latest_paths (addSubscription s))),
           sent := sent s @
             map (MetaSubscribe (socketMessageCount s) (socketClientId s))
               (latest_paths (addSubscription s)) \<rparr>
      else s)"
  by (cases "addSubscription s")
     (simp_all add: subscriptionPipeline_def latest_paths_def sendSubscription_eq)

lemma handleMessage_fields:
  "addSubscription (handleMessage c0 cid0 s m) = addSubscription s"
  "subscriptions (handleMessage c0 cid0 s m) = subscriptions s"
  "isSocketAuth (handleMessage c0 cid0 s m) = (isSocketAuth s \<or> is_connect m)"
  "isSocketOpen (handleMessage c0 cid0 s m) = isSocketOpen s"
  "authSession (handleMessage c0 cid0 s m) = authSession s"
  by (auto simp add: handleMessage_def isSocketAuth_next_def subscriptionPipeline_eq
      onSocketSend_def is_connect_def)

lemma handleMessage_paths:
  "subscribe_paths (sent (handleMessage c0 cid0 s m)) =
     subscribe_paths (sent s) @
       (if \<not> isSocketAuth s \<and> is_connect m then latest_paths (addSubscription s) else [])"
  by (auto simp add: handleMessage_def isSocketAuth_next_def subscriptionPipeline_eq
      onSocketSend_def is_connect_def subscribe_paths_append subscribe_paths_Subscribe)

lemma handleMessage_count:
  "socketMessageCount (handleMessage c0 cid0 s m) - int (length (sent (handleMessage c0 cid0 s m)))
     = socketMessageCount s - int (length (sent s))"
  by (auto simp add: handleMessage_def isSocketAuth_next_def subscriptionPipeline_eq
      onSocketSend_def)

lemma loop_fields:
  "addSubscription (foldl (handleMessage c0 cid0) s ms) = addSubscription s"
  "subscriptions (foldl (handleMessage c0 cid0) s ms) = subscriptions s"
  "isSocketAuth (foldl (handleMessage c0 cid0) s ms) = (isSocketAuth s \<or> list_ex is_connect ms)"
  "isSocketOpen (foldl (handleMessage c0 cid0) s ms) = isSocketOpen s"
  "authSession (foldl (handleMessage c0 cid0) s ms) = authSession s"
  by (induction ms arbitrary: s) (auto simp add: handleMessage_fields)

lemma loop_paths:
  "subscribe_paths (sent (foldl (handleMessage c0 cid0) s ms)) =
     subscribe_paths (sent s) @
       (if \<not> isSocketAuth s \<and> list_ex is_connect ms then latest_paths (addSubscription s) else [])"
proof (induction ms arbitrary: s)
  case Nil
  show ?case by simp
next
  case (Cons m ms)
  show ?case
    by (simp add: Cons.IH handleMessage_paths handleMessage_fields)
qed

lemma loop_count:
  "socketMessageCount (foldl (handleMessage c0 cid0) s ms)
      - int (length (sent (foldl (handleMessage c0 cid0) s ms)))
     = socketMessageCount s - int (length (sent s))"
  by (induction ms arbitrary: s) (simp_all add: handleMessage_count)

lemma socketOpenAndSession_eq:
  "socketOpenAndSession s =
     (case authSession s of
        Some a \<Rightarrow>
          if isSocketOpen s = Some True then
            s\<lparr> socketMessageCount := socketMessageCount s + 1,
               sent := sent s @ [MetaHandshake (socketMessageCount s) (pushSubscriptionId a)] \<rparr>
          else s
      | None \<Rightarrow> s)"
  by (simp add: socketOpenAndSession_def onSocketAuth_def onSocketSend_def split: option.splits)

lemma step_count:
  "socketMessageCount (step s e) - int (length (sent (step s e)))
     = socketMessageCount s - int (length (sent s))"
  by (cases e)
     (simp_all add: socketOpenAndSession_eq subscriptionPipeline_eq onSocketMessage_def
        loop_count split: option.splits)

lemma run_count:
  "socketMessageCount (run s evs) - int (length (sent (run s evs)))
     = socketMessageCount s - int (length (sent s))"
  unfolding run_def by (induction evs arbitrary: s) (simp_all add: step_count)

lemma counter_invariant:
  "socketMessageCount (run rt_init evs) = 1 + int (length (sent (run rt_init evs)))"
  using run_count [of rt_init evs] by (simp add: rt_init_def)

lemma step_isSocketAuth:
  "isSocketAuth (step s e) = (isSocketAuth s \<or> carries_connect e)"
  by (cases e)
     (simp_all add: socketOpenAndSession_eq subscriptionPipeline_eq onSocketMessage_def
        loop_fields split: option.splits)

lemma step_addSubscription:
  "addSubscription (step s e) =
     (case e of AddSubscriptionNext sub \<Rightarrow> Some sub | _ \<Rightarrow> addSubscription s)"
  by (cases e)
     (simp_all add: socketOpenAndSession_eq subscriptionPipeline_eq onSocketMessage_def
        loop_fields split: option.splits)

lemma step_paths:
  "subscribe_paths (sent (step s e)) =
     subscribe_paths (sent s) @
       (case e of
          SocketMessage ms \<Rightarrow>
            if \<not> isSocketAuth s \<and> list_ex is_connect ms
            then latest_paths (addSubscription s) else []
        | AddSubscriptionNext sub \<Rightarrow> if isSocketAuth s then subscription_paths sub else []
        | _ \<Rightarrow> [])"
  by (cases e)
     (simp_all add: socketOpenAndSession_eq subscriptionPipeline_eq onSocketMessage_def
        loop_paths subscribe_paths_append subscribe_paths_Subscribe latest_paths_def
        split: option.splits)

lemmas rt_eval =
  run_def rt_init_def example_session_def handshake_ok_def connect_ok_def
  authenticated_trace_def socketOpenAndSession_def onSocketAuth_def onSocketSend_def
  onSocketMessage_def handleMessage_def isSocketAuth_next_def subscriptionPipeline_def
  sendSubscription_def account_scoped_def Let_def

lemma run_append: "run s (xs @ ys) = run (run s xs) ys"
  by (simp add: run_def)

lemma run_Cons: "run s (e # evs) = run (step s e) evs"
  by (simp add: run_def)

lemma run_snoc: "run s (evs @ [e]) = step (run s evs) e"
  by (simp add: run_def)

lemma run_no_connect:
  "\<not> isSocketAuth s \<Longrightarrow> list_all (\<lambda>e. \<not> carries_connect e) evs \<Longrightarrow>
     \<not> isSocketAuth (run s evs) \<and> subscribe_paths (sent (run s evs)) = subscribe_paths (sent s)"
proof (induction evs arbitrary: s)
  case Nil
  then show ?case by (simp add: run_Nil)
next
  case (Cons e evs)
  from Cons.prems have e: "\<not> carries_connect e" and rest: "list_all (\<lambda>e. \<not> carries_connect e) evs"
    by simp_all
  from Cons.prems(1) e have a: "\<not> isSocketAuth (step s e)"
    by (simp add: step_isSocketAuth)
  from Cons.prems(1) e have p: "subscribe_paths (sent (step s e)) = subscribe_paths (sent s)"
    by (cases e) (simp_all add: step_paths del: step.simps)
  from Cons.IH [OF a rest] p show ?case
    by (simp add: run_Cons)
qed

lemma run_keeps_latest:
  "list_all (\<lambda>e. \<not> is_addSubscription e) evs \<Longrightarrow> addSubscription (run s evs) = addSubscription s"
proof (induction evs arbitrary: s)
  case Nil
  show ?case by (simp add: run_Nil)
next
  case (Cons e evs)
  then show ?case
    by (cases e) (simp_all add: run_Cons step_addSubscription del: step.simps)
qed

lemma step_subscriptions:
  "subscriptions (step s e) =
     (case e of AddSubscriptionNext sub \<Rightarrow> subscriptions s @ [Some sub] | _ \<Rightarrow> subscriptions s)"
  by (cases e)
     (simp_all add: socketOpenAndSession_eq subscriptionPipeline_eq onSocketMessage_def
        loop_fields split: option.splits)

lemma run_ledger_latest:
  "addSubscription s = last (subscriptions s) \<Longrightarrow>
     addSubscription (run s evs) = last (subscriptions (run s evs))"
proof (induction evs arbitrary: s)
  case Nil
  then show ?case by (simp add: run_Nil)
next
  case (Cons e evs)
  have "addSubscription (step s e) = last (subscriptions (step s e))"
    using Cons.prems
    by (cases e) (simp_all add: step_addSubscription step_subscriptions del: step.simps)
  from Cons.IH [OF this] show ?case by (simp add: run_Cons)
qed

lemma ledger_latest:
  "addSubscription (run rt_init evs) = last (subscriptions (run rt_init evs))"
  by (rule run_ledger_latest) (simp add: rt_init_def)

lemma run_isSocketAuth:
  "isSocketAuth (run s evs) = (isSocketAuth s \<or> list_ex carries_connect evs)"
  by (induction evs arbitrary: s) (auto simp add: run_Nil run_Cons step_isSocketAuth)

lemma handleMessage_keeps_clientId:
  "socketClientId s \<noteq> None \<Longrightarrow> socketClientId (handleMessage c0 cid0 s m) \<noteq> None"
  by (auto simp add: handleMessage_def isSocketAuth_next_def subscriptionPipeline_eq
      onSocketSend_def)

lemma first_connect_releases_latest:
  assumes pre: "list_all (\<lambda>e. \<not> carries_connect e) pre"
    and mid: "list_all (\<lambda>e. \<not> carries_connect e \<and> \<not> is_addSubscription e) mid"
    and ch: "\<not> account_scoped ch"
    and ms: "list_ex is_connect ms"
  shows "subscribe_paths (sent (run rt_init
            (pre @ [AddSubscriptionNext \<lparr> sub_channel = ch, sub_ids = ids \<rparr>] @ mid))) = []
       \<and> subscribe_paths (sent (run rt_init
            (pre @ [AddSubscriptionNext \<lparr> sub_channel = ch, sub_ids = ids \<rparr>] @ mid
               @ [SocketMessage ms])))
           = map (\<lambda>i. ''/'' @ channel_value ch @ ''/'' @ i) ids"
proof -
  let ?q = "\<lparr> sub_channel = ch, sub_ids = ids \<rparr>"
  let ?evs = "pre @ [AddSubscriptionNext ?q] @ mid"
  from pre mid have nc: "list_all (\<lambda>e. \<not> carries_connect e) ?evs"
    by (auto simp add: list_all_iff)
  have init: "\<not> isSocketAuth rt_init" "subscribe_paths (sent rt_init) = []"
    by (simp_all add: rt_init_def)
  from run_no_connect [OF init(1) nc] init(2)
  have quiet: "\<not> isSocketAuth (run rt_init ?evs)" "subscribe_paths (sent (run rt_init ?evs)) = []"
    by simp_all
  from mid have "list_all (\<lambda>e. \<not> is_addSubscription e) mid"
    by (simp add: list_all_iff)
  from run_keeps_latest [OF this]
  have latest: "addSubscription (run rt_init ?evs) = Some ?q"
    by (simp add: run_append run_Cons step_addSubscription del: step.simps)
  have "subscribe_paths (sent (step (run rt_init ?evs) (SocketMessage ms)))
          = map (\<lambda>i. ''/'' @ channel_value ch @ ''/'' @ i) ids"
    using quiet latest ms ch
    by (simp add: step_paths latest_paths_def subscription_paths_def del: step.simps)
  then have "subscribe_paths (sent (run rt_init (?evs @ [SocketMessage ms])))
          = map (\<lambda>i. ''/'' @ channel_value ch @ ''/'' @ i) ids"
    by (simp only: run_snoc)
  with quiet(2) show ?thesis by simp
qed

lemmas rt_examples = quotes_5_6_def orders_5_6_def quotes_1_def quotes_2_def

text \<open>
  Claim C5, as stated, fails. A second request added before the connection is
  authenticated replaces the first in the pipeline, so the connect success sends the
  frames of the second request and never those of ids \<open>[5, 6]\<close>. And the handler does
  not read the \<open>successful\<close> field of a \<open>/meta/connect\<close> frame: a connect response
  that reports failure releases the two frames although no connect success has arrived.
\<close>

theorem pending_request_counterexample:
  "subscribe_paths (sent (run rt_init
      ([AddSubscriptionNext quotes_5_6, AddSubscriptionNext quotes_1] @ authenticated_trace)))
     = [''/quotes/1'']
   \<and> subscribe_paths (sent (run rt_init
      [AddSubscriptionNext quotes_5_6, AuthSessionNext example_session, SocketOpen,
       SocketMessage [handshake_ok], SocketMessage [connect_failed]]))
     = [''/quotes/5'', ''/quotes/6'']"
  by (simp add: rt_eval rt_examples connect_failed_def)

text \<open>
  Claim C5, amended. A request for a channel outside the account-scoped set (for example
  \<open>quotes\<close>) with ids \<open>[5, 6]\<close> is added before the connection is authenticated, and
  no further request is added afterwards (\<open>mid\<close>). As long as no inbound array carries
  a \<open>/meta/connect\<close> frame, whatever else happens before (\<open>pre\<close>) and after
  (\<open>mid\<close>), no subscribe frame is sent. When the first inbound array with a
  \<open>/meta/connect\<close> frame arrives and its connect frames report success, the
  multiplexer sends exactly one subscribe frame per id, in order, with the paths
  \<open>/channel/id\<close>.
\<close>

theorem subscribe_waits_for_connect:
  assumes pre: "list_all (\<lambda>e. \<not> carries_connect e) pre"
    and mid: "list_all (\<lambda>e. \<not> carries_connect e \<and> \<not> is_addSubscription e) mid"
    and ch: "\<not> account_scoped ch"
    and ms: "list_ex (\<lambda>m. is_connect m \<and> in_successful m) ms"
    and ok: "list_all (\<lambda>m. \<not> is_connect m \<or> in_successful m) ms"
  shows "subscribe_paths (sent (run rt_init
            (pre @ [AddSubscriptionNext \<lparr> sub_channel = ch, sub_ids = ids \<rparr>] @ mid))) = []
       \<and> subscribe_paths (sent (run rt_init
            (pre @ [AddSubscriptionNext \<lparr> sub_channel = ch, sub_ids = ids \<rparr>] @ mid
               @ [SocketMessage ms])))
           = map (\<lambda>i. ''/'' @ channel_value ch @ ''/'' @ i) ids"
proof -
  from ms have "list_ex is_connect ms"
    by (auto simp add: list_ex_iff)
  from first_connect_releases_latest [OF pre mid ch this] show ?thesis .
qed

theorem subscribe_waits_for_connect_witness:
  "subscribe_paths (sent (run rt_init
      ([SocketOpen] @ [AddSubscriptionNext \<lparr> sub_channel = QUOTES, sub_ids = [''5'', ''6''] \<rparr>]
        @ [AuthSessionNext example_session, SocketMessage [handshake_ok]]))) = []
   \<and> subscribe_paths (sent (run rt_init
      ([SocketOpen] @ [AddSubscriptionNext \<lparr> sub_channel = QUOTES, sub_ids = [''5'', ''6''] \<rparr>]
        @ [AuthSessionNext example_session, SocketMessage [handshake_ok]]
        @ [SocketMessage [connect_ok]])))
      = [''/quotes/5'', ''/quotes/6'']"
  using subscribe_waits_for_connect [of "[SocketOpen]" "[AuthSessionNext example_session, SocketMessage [handshake_ok]]"
      QUOTES "[connect_ok]" "[''5'', ''6'']"]
  by (simp add: is_connect_def handshake_ok_def connect_ok_def account_scoped_def)


lemma authenticated_state:
  "run rt_init authenticated_trace =
     \<lparr> socketMessageCount = 4, socketClientId = Some ''C1'', isSocketAuth = True,
       isSocketOpen = Some True, authSession = Some example_session, addSubscription = None,
       subscriptions = [None], messages = [],
       sent = [MetaHandshake 1 ''push'', MetaConnect 2 (Some ''C1'') True,
               MetaConnect 3 (Some ''C1'') False] \<rparr>"
  by (simp add: rt_eval)

text \<open>
  Claim C1. In every run the counter is 1 plus the number of frames sent: it starts at 1
  and grows by one with every frame. But a frame's \<open>id\<close> is the counter as it stood when
  the triggering event arrived, and every frame sent in reaction to that event repeats it.
  After handshake, connect and one connect response, a request for two quote ids sends two
  subscribe frames that both carry id 4 while the counter moves on to 6; an inbound array
  holding a handshake response and a connect response is answered by two connect frames
  that both carry id 2.
\<close>

theorem frame_ids_repeat:
  "socketMessageCount (run rt_init evs) = 1 + int (length (sent (run rt_init evs)))
   \<and> map frame_id (sent (run rt_init (authenticated_trace @ [AddSubscriptionNext quotes_5_6])))
     = [1, 2, 3, 4, 4]
   \<and> socketMessageCount (run rt_init (authenticated_trace @ [AddSubscriptionNext quotes_5_6])) = 6
   \<and> map frame_id (sent (run rt_init
        [AuthSessionNext example_session, SocketOpen, SocketMessage [handshake_ok, connect_ok]]))
     = [1, 2, 2]"
  using counter_invariant [of evs] by (simp add: rt_eval rt_examples)

text \<open>
  Claim C4, as stated, fails: for \<open>orders\<close> with ids \<open>[5, 6]\<close> on an authenticated
  connection the one subscribe frame carries the path \<open>/orders5,6\<close> (the ids joined by a
  comma), not \<open>/orders56\<close>.
\<close>

theorem orders_path_counterexample:
  "subscribe_paths (sent (run rt_init (authenticated_trace @ [AddSubscriptionNext orders_5_6])))
     = [''/orders5,6'']
   \<and> subscribe_paths (sent (run rt_init (authenticated_trace @ [AddSubscriptionNext orders_5_6])))
     \<noteq> [''/orders56'']"
  by (simp add: rt_eval rt_examples)

text \<open>
  Claim C4, amended. On an authenticated connection, adding a request for an
  account-scoped channel (orders, deals, positions) sends exactly one frame: a subscribe
  frame whose path is a slash, the channel name and the ids joined by commas, with nothing
  between the channel name and the first id.
\<close>

theorem account_scoped_single_frame:
  assumes "isSocketAuth s" and "account_scoped ch"
  shows "sent (step s (AddSubscriptionNext \<lparr> sub_channel = ch, sub_ids = ids \<rparr>)) =
           sent s @ [MetaSubscribe (socketMessageCount s) (socketClientId s)
                       (''/'' @ channel_value ch @ join '','' ids)]"
  using assms by (simp add: subscriptionPipeline_eq latest_paths_def subscription_paths_def)

theorem account_scoped_single_frame_witness:
  "sent (step (run rt_init authenticated_trace)
           (AddSubscriptionNext \<lparr> sub_channel = ORDERS, sub_ids = [''5'', ''6''] \<rparr>)) =
     sent (run rt_init authenticated_trace) @ [MetaSubscribe 4 (Some ''C1'') ''/orders5,6'']"
  using account_scoped_single_frame [of "run rt_init authenticated_trace" ORDERS "[''5'', ''6'']"]
  by (simp add: authenticated_state account_scoped_def)

text \<open>
  Claim C2, as stated, fails: two requests are added before the connection is
  authenticated, the ledger holds both, and the transition into the authenticated state
  sends a subscribe frame for the second only.
\<close>

theorem replay_latest_only_counterexample:
  "subscriptions (run rt_init
      ([AddSubscriptionNext quotes_1, AddSubscriptionNext quotes_2] @ authenticated_trace))
     = [None, Some quotes_1, Some quotes_2]
   \<and> subscribe_paths (sent (run rt_init
      ([AddSubscriptionNext quotes_1, AddSubscriptionNext quotes_2] @ authenticated_trace)))
     = [''/quotes/2'']"
  by (simp add: rt_eval rt_examples)

text \<open>
  Claim C2, amended. An inbound array moves the connection into the authenticated state
  exactly when it carries a \<open>/meta/connect\<close> frame and the connection was not yet
  authenticated. On that transition the subscribe frames sent are those of the latest
  entry of the ledger alone (none when nothing was added); an array that arrives when the
  connection is already authenticated sends no subscribe frame.
\<close>

theorem connect_replays_latest_request:
  "isSocketAuth (step (run rt_init evs) (SocketMessage ms))
     = (isSocketAuth (run rt_init evs) \<or> list_ex is_connect ms)
   \<and> subscribe_paths (sent (step (run rt_init evs) (SocketMessage ms)))
     = subscribe_paths (sent (run rt_init evs)) @
         (if \<not> isSocketAuth (run rt_init evs) \<and> list_ex is_connect ms
          then latest_paths (last (subscriptions (run rt_init evs))) else [])"
  by (simp add: step_isSocketAuth step_paths ledger_latest del: step.simps)

theorem connect_replays_latest_request_witness:
  "isSocketAuth (step (run rt_init
       [AddSubscriptionNext quotes_1, AddSubscriptionNext quotes_2,
        AuthSessionNext example_session, SocketOpen, SocketMessage [handshake_ok]])
       (SocketMessage [connect_ok]))
   \<and> subscribe_paths (sent (step (run rt_init
       [AddSubscriptionNext quotes_1, AddSubscriptionNext quotes_2,
        AuthSessionNext example_session, SocketOpen, SocketMessage [handshake_ok]])
       (SocketMessage [connect_ok]))) = [''/quotes/2'']"
  using connect_replays_latest_request
    [of "[AddSubscriptionNext quotes_1, AddSubscriptionNext quotes_2,
          AuthSessionNext example_session, SocketOpen, SocketMessage [handshake_ok]]"
        "[connect_ok]"]
  by (simp add: rt_eval rt_examples is_connect_def latest_paths_def subscription_paths_def)

lemma loop_socketClientId:
  "socketClientId s \<noteq> None \<Longrightarrow> socketClientId (foldl (handleMessage c0 cid0) s ms) \<noteq> None"
proof (induction ms arbitrary: s)
  case Nil
  then show ?case by simp
next
  case (Cons m ms)
  from Cons.IH [OF handleMessage_keeps_clientId [OF Cons.prems]] show ?case by simp
qed

lemma step_keeps_clientId:
  "socketClientId s \<noteq> None \<Longrightarrow> socketClientId (step s e) \<noteq> None"
proof (cases e)
  case (SocketMessage ms)
  assume "socketClientId s \<noteq> None"
  from loop_socketClientId [OF this] SocketMessage show ?thesis
    by (simp add: onSocketMessage_def)
qed (simp_all add: socketOpenAndSession_eq subscriptionPipeline_eq split: option.splits)

lemma run_keeps_clientId:
  "socketClientId s \<noteq> None \<Longrightarrow> socketClientId (run s evs) \<noteq> None"
proof (induction evs arbitrary: s)
  case Nil
  then show ?case by (simp add: run_Nil)
next
  case (Cons e evs)
  from Cons.IH [OF step_keeps_clientId [OF Cons.prems]] show ?case
    by (simp add: run_Cons del: step.simps)
qed

text \<open>
  Claim C3, as stated, fails: after a close event the client id of the closed connection
  is still stored and the connection still counts as authenticated, so a request added after
  the close (or after the next open, before any handshake response) is sent at once as
  subscribe frames carrying the old client id.
\<close>

theorem close_keeps_clientId_counterexample:
  "socketClientId (run rt_init (authenticated_trace @ [SocketClose])) = Some ''C1''
   \<and> isSocketAuth (run rt_init (authenticated_trace @ [SocketClose])) = True
   \<and> sent (run rt_init (authenticated_trace @ [SocketClose, AddSubscriptionNext quotes_5_6]))
       = [MetaHandshake 1 ''push'', MetaConnect 2 (Some ''C1'') True,
          MetaConnect 3 (Some ''C1'') False,
          MetaSubscribe 4 (Some ''C1'') ''/quotes/5'', MetaSubscribe 4 (Some ''C1'') ''/quotes/6'']
   \<and> sent (run rt_init
        (authenticated_trace @ [SocketClose, SocketOpen, AddSubscriptionNext quotes_5_6]))
       = [MetaHandshake 1 ''push'', MetaConnect 2 (Some ''C1'') True,
          MetaConnect 3 (Some ''C1'') False, MetaHandshake 4 ''push'',
          MetaSubscribe 5 (Some ''C1'') ''/quotes/5'', MetaSubscribe 5 (Some ''C1'') ''/quotes/6'']"
  by (simp add: rt_eval rt_examples)

text \<open>
  Claim C3, amended. A close event only records that the socket is not open. The stored
  client id, the authenticated flag, the counter and the frame log are unchanged; no later
  event clears the flag or the client id; and an open event that follows, with a session at
  hand, sends a handshake frame.
\<close>

theorem close_only_clears_open_flag:
  "step s SocketClose = s\<lparr> isSocketOpen := Some False \<rparr>
   \<and> (isSocketAuth s \<longrightarrow> isSocketAuth (run (step s SocketClose) evs))
   \<and> (socketClientId s \<noteq> None \<longrightarrow> socketClientId (run (step s SocketClose) evs) \<noteq> None)
   \<and> (authSession s = Some a \<longrightarrow>
        sent (step (step s SocketClose) SocketOpen) =
          sent s @ [MetaHandshake (socketMessageCount s) (pushSubscriptionId a)])"
proof -
  have c: "step s SocketClose = s\<lparr> isSocketOpen := Some False \<rparr>"
    by (simp add: socketOpenAndSession_eq split: option.splits)
  have "isSocketAuth s \<longrightarrow> isSocketAuth (run (s\<lparr> isSocketOpen := Some False \<rparr>) evs)"
    by (simp add: run_isSocketAuth)
  moreover have "socketClientId s \<noteq> None \<longrightarrow>
      socketClientId (run (s\<lparr> isSocketOpen := Some False \<rparr>) evs) \<noteq> None"
    using run_keeps_clientId [of "s\<lparr> isSocketOpen := Some False \<rparr>" evs] by simp
  moreover have "authSession s = Some a \<longrightarrow>
      sent (step (s\<lparr> isSocketOpen := Some False \<rparr>) SocketOpen) =
        sent s @ [MetaHandshake (socketMessageCount s) (pushSubscriptionId a)]"
    by (simp add: socketOpenAndSession_eq)
  ultimately show ?thesis
    unfolding c by blast
qed

theorem close_only_clears_open_flag_witness:
  "step (run rt_init authenticated_trace) SocketClose
     = (run rt_init authenticated_trace)\<lparr> isSocketOpen := Some False \<rparr>
   \<and> isSocketAuth (run (step (run rt_init authenticated_trace) SocketClose)
        [SocketOpen, SocketMessage [handshake_ok]])
   \<and> socketClientId (run (step (run rt_init authenticated_trace) SocketClose)
        [SocketOpen, SocketMessage [handshake_ok]]) \<noteq> None
   \<and> sent (step (step (run rt_init authenticated_trace) SocketClose) SocketOpen) =
        sent (run rt_init authenticated_trace) @ [MetaHandshake 4 ''push'']"
proof -
  have fields:
    "isSocketAuth (run rt_init authenticated_trace)"
    "socketClientId (run rt_init authenticated_trace) \<noteq> None"
    "authSession (run rt_init authenticated_trace) = Some example_session"
    "socketMessageCount (run rt_init authenticated_trace) = 4"
    "pushSubscriptionId example_session = ''push''"
    by (simp_all add: authenticated_state) (simp add: example_session_def)
  from close_only_clears_open_flag
    [of "run rt_init authenticated_trace" "[SocketOpen, SocketMessage [handshake_ok]]"
        example_session] fields(1,2,3)
  have "step (run rt_init authenticated_trace) SocketClose
     = (run rt_init authenticated_trace)\<lparr> isSocketOpen := Some False \<rparr>
   \<and> isSocketAuth (run (step (run rt_init authenticated_trace) SocketClose)
        [SocketOpen, SocketMessage [handshake_ok]])
   \<and> socketClientId (run (step (run rt_init authenticated_trace) SocketClose)
        [SocketOpen, SocketMessage [handshake_ok]]) \<noteq> None
   \<and> sent (step (step (run rt_init authenticated_trace) SocketClose) SocketOpen) =
        sent (run rt_init authenticated_trace) @
          [MetaHandshake (socketMessageCount (run rt_init authenticated_trace))
             (pushSubscriptionId example_session)]"
    by blast
  then show ?thesis
    unfolding fields(4) fields(5) .
qed

section \<open>Session authenticator and retry policy: properties\<close>

lemmas auth_eval =
  auth_run_def service_new_def monolith_new_def setCredentials_def authenticate_def
  subscribe_pipeline_def credentials_emit_def authenticate_emits_def issue_login_def
  update_pipeline_def pipeline_error_def http_response_def login_response_def
  totp_response_def authSession_next_def advance_def fresh_pipeline_def
  request_def check_status_def genericRetryStrategy_def login_retry_def
  strategy_defaults_monolith_def strategy_defaults_service_def checkCredentials_def
  MIN_INACTIVE_MINUTES_def MAX_INACTIVE_MINUTES_def renewal_delay_def promise_value_def
  alice_def login_ok_def totp_ok_def status_only_def Let_def





lemma is_number_200_iff: "is_number_200 x \<longleftrightarrow> x = Some (JNum 200)"
  by (cases x rule: is_number_200.cases) auto

lemma spread_body_wins:
  "body ''statusCode'' = Some v \<Longrightarrow> [''statusCode'' \<mapsto> JNum st] ++ body = body"
  by (rule ext) (simp add: map_add_def split: option.splits)

lemma request_merges_status:
  "\<exists>obj. request (FetchResponse st (Some body) hs) = Inr (obj, hs)
     \<and> obj ''statusCode'' = (case body ''statusCode'' of None \<Rightarrow> Some (JNum st) | Some v \<Rightarrow> Some v)
     \<and> (\<forall>key. key \<noteq> ''statusCode'' \<longrightarrow> obj key = body key)
     \<and> (check_status (obj, hs) = Inr (obj, hs) \<longleftrightarrow>
          (case body ''statusCode'' of None \<Rightarrow> st = 200 | Some v \<Rightarrow> v = JNum 200))
     \<and> (check_status (obj, hs) = Inl (ResponseJson obj) \<longleftrightarrow>
          \<not> (case body ''statusCode'' of None \<Rightarrow> st = 200 | Some v \<Rightarrow> v = JNum 200))"
  by (auto simp add: request_def check_status_def is_number_200_iff map_add_def
      split: option.splits)

lemma status_decides_without_body_field:
  assumes "body ''statusCode'' = None" and "st \<noteq> 200"
  shows "login_response x s k (FetchResponse st (Some body) hs)
           = pipeline_error x s k (ResponseJson ([''statusCode'' \<mapsto> JNum st] ++ body))
       \<and> totp_response x s k tfl (FetchResponse st (Some body) hs)
           = pipeline_error x s k (ResponseJson ([''statusCode'' \<mapsto> JNum st] ++ body))"
  using assms
  by (simp add: login_response_def totp_response_def request_def check_status_def
      map_add_def)

text \<open>
  Claim C10. \<open>request\<close> resolves with an object that has the body's fields and a
  \<open>statusCode\<close>: the body's own \<open>statusCode\<close> when it has one, the HTTP status
  otherwise. The success check of the login and second-factor steps passes exactly when
  that value is the number 200 and throws the object otherwise. So without the field in the
  body the HTTP status decides: a status other than 200 makes both steps of the pipeline
  fail with the merged object. With the field in the body, the body's value decides: the
  object is the body itself, the HTTP status leaves no trace, and both steps of the
  pipeline do the same whatever the HTTP status was.
\<close>

theorem body_statusCode_overrides:
  "(\<exists>obj. request (FetchResponse st (Some body) hs) = Inr (obj, hs)
     \<and> obj ''statusCode'' = (case body ''statusCode'' of None \<Rightarrow> Some (JNum st) | Some v \<Rightarrow> Some v)
     \<and> (\<forall>key. key \<noteq> ''statusCode'' \<longrightarrow> obj key = body key)
     \<and> (check_status (obj, hs) = Inr (obj, hs) \<longleftrightarrow>
          (case body ''statusCode'' of None \<Rightarrow> st = 200 | Some v \<Rightarrow> v = JNum 200))
     \<and> (check_status (obj, hs) = Inl (ResponseJson obj) \<longleftrightarrow>
          \<not> (case body ''statusCode'' of None \<Rightarrow> st = 200 | Some v \<Rightarrow> v = JNum 200)))
   \<and> (body ''statusCode'' = None \<and> st \<noteq> 200 \<longrightarrow>
        login_response x s k (FetchResponse st (Some body) hs)
          = pipeline_error x s k (ResponseJson ([''statusCode'' \<mapsto> JNum st] ++ body))
      \<and> totp_response x s k tfl (FetchResponse st (Some body) hs)
          = pipeline_error x s k (ResponseJson ([''statusCode'' \<mapsto> JNum st] ++ body)))
   \<and> (body ''statusCode'' = Some v \<longrightarrow>
        request (FetchResponse st (Some body) hs) = Inr (body, hs)
      \<and> (check_status (body, hs) = Inr (body, hs) \<longleftrightarrow> v = JNum 200)
      \<and> (check_status (body, hs) = Inl (ResponseJson body) \<longleftrightarrow> v \<noteq> JNum 200)
      \<and> login_response x s k (FetchResponse st (Some body) hs)
          = login_response x s k (FetchResponse st' (Some body) hs)
      \<and> totp_response x s k tfl (FetchResponse st (Some body) hs)
          = totp_response x s k tfl (FetchResponse st' (Some body) hs))"
proof -
  have third: "body ''statusCode'' = Some v \<longrightarrow>
        request (FetchResponse st (Some body) hs) = Inr (body, hs)
      \<and> (check_status (body, hs) = Inr (body, hs) \<longleftrightarrow> v = JNum 200)
      \<and> (check_status (body, hs) = Inl (ResponseJson body) \<longleftrightarrow> v \<noteq> JNum 200)
      \<and> login_response x s k (FetchResponse st (Some body) hs)
          = login_response x s k (FetchResponse st' (Some body) hs)
      \<and> totp_response x s k tfl (FetchResponse st (Some body) hs)
          = totp_response x s k tfl (FetchResponse st' (Some body) hs)"
  proof
    assume b: "body ''statusCode'' = Some v"
    have r: "\<And>n. request (FetchResponse n (Some body) hs) = Inr (body, hs)"
      using b by (simp add: request_def spread_body_wins)
    have c: "(check_status (body, hs) = Inr (body, hs) \<longleftrightarrow> v = JNum 200)
         \<and> (check_status (body, hs) = Inl (ResponseJson body) \<longleftrightarrow> v \<noteq> JNum 200)"
      using b by (simp add: check_status_def is_number_200_iff)
    show "request (FetchResponse st (Some body) hs) = Inr (body, hs)
      \<and> (check_status (body, hs) = Inr (body, hs) \<longleftrightarrow> v = JNum 200)
      \<and> (check_status (body, hs) = Inl (ResponseJson body) \<longleftrightarrow> v \<noteq> JNum 200)
      \<and> login_response x s k (FetchResponse st (Some body) hs)
          = login_response x s k (FetchResponse st' (Some body) hs)
      \<and> totp_response x s k tfl (FetchResponse st (Some body) hs)
          = totp_response x s k tfl (FetchResponse st' (Some body) hs)"
      by (simp add: r c login_response_def totp_response_def)
  qed
  from request_merges_status [of st body hs]
    status_decides_without_body_field
      [where body = body and st = st and x = x and s = s and k = k and hs = hs and tfl = tfl]
    third
  show ?thesis by blast
qed

theorem body_statusCode_overrides_witness:
  "(\<exists>obj. request (FetchResponse 401 (Some Map.empty) Map.empty) = Inr (obj, Map.empty)
      \<and> obj ''statusCode'' = Some (JNum 401)
      \<and> check_status (obj, Map.empty) = Inl (ResponseJson obj))
   \<and> (\<exists>obj. request (FetchResponse 401 (Some [''statusCode'' \<mapsto> JNum 200]) Map.empty)
             = Inr (obj, Map.empty)
      \<and> obj ''statusCode'' = Some (JNum 200)
      \<and> check_status (obj, Map.empty) = Inr (obj, Map.empty))
   \<and> request (FetchResponse 401 (Some [''statusCode'' \<mapsto> JNum 200]) Map.empty)
       = Inr ([''statusCode'' \<mapsto> JNum 200], Map.empty)
   \<and> login_response Service (authenticate (service_new (Some alice) 30)) 0
        (FetchResponse 401 (Some [''statusCode'' \<mapsto> JNum 200]) Map.empty)
     = login_response Service (authenticate (service_new (Some alice) 30)) 0
        (FetchResponse 200 (Some [''statusCode'' \<mapsto> JNum 200]) Map.empty)
   \<and> login_response Service (authenticate (service_new (Some alice) 30)) 0
        (FetchResponse 401 (Some Map.empty) Map.empty)
     = pipeline_error Service (authenticate (service_new (Some alice) 30)) 0
        (ResponseJson ([''statusCode'' \<mapsto> JNum 401] ++ Map.empty))"
proof -
  have b: "[''statusCode'' \<mapsto> JNum 200] ''statusCode'' = Some (JNum 200)"
    "(Map.empty :: json_object) ''statusCode'' = None" "(401::int) \<noteq> 200"
    by simp_all
  note a = body_statusCode_overrides
      [where body = "[''statusCode'' \<mapsto> JNum 200]" and v = "JNum 200" and st = 401
         and hs = Map.empty and x = Service and s = "authenticate (service_new (Some alice) 30)"
         and k = 0 and st' = 200]
  note e = body_statusCode_overrides
      [where body = Map.empty and st = 401
         and hs = Map.empty and x = Service and s = "authenticate (service_new (Some alice) 30)"
         and k = 0]
  from a b(1) have a1: "\<exists>obj. request (FetchResponse 401 (Some [''statusCode'' \<mapsto> JNum 200]) Map.empty)
             = Inr (obj, Map.empty)
      \<and> obj ''statusCode'' = Some (JNum 200)
      \<and> check_status (obj, Map.empty) = Inr (obj, Map.empty)"
    by auto
  from a b(1) have a2: "request (FetchResponse 401 (Some [''statusCode'' \<mapsto> JNum 200]) Map.empty)
       = Inr ([''statusCode'' \<mapsto> JNum 200], Map.empty)
   \<and> login_response Service (authenticate (service_new (Some alice) 30)) 0
        (FetchResponse 401 (Some [''statusCode'' \<mapsto> JNum 200]) Map.empty)
     = login_response Service (authenticate (service_new (Some alice) 30)) 0
        (FetchResponse 200 (Some [''statusCode'' \<mapsto> JNum 200]) Map.empty)"
    by blast
  from e b(2,3) have e1: "\<exists>obj. request (FetchResponse 401 (Some Map.empty) Map.empty) = Inr (obj, Map.empty)
      \<and> obj ''statusCode'' = Some (JNum 401)
      \<and> check_status (obj, Map.empty) = Inl (ResponseJson obj)"
    by auto
  from e b(2,3) have e2: "login_response Service (authenticate (service_new (Some alice) 30)) 0
        (FetchResponse 401 (Some Map.empty) Map.empty)
     = pipeline_error Service (authenticate (service_new (Some alice) 30)) 0
        (ResponseJson ([''statusCode'' \<mapsto> JNum 401] ++ Map.empty))"
    by blast
  from a1 a2 e1 e2 show ?thesis by blast
qed

lemma retry_excluded:
  "excluded cfg e \<Longrightarrow> retryWhen cfg i (Inl e # rest) = ([], Propagated e)"
  by (simp add: genericRetryStrategy_def excluded_def)

lemma retry_exhausted:
  "maxRetryAttempts cfg < int i + 1 \<Longrightarrow> retryWhen cfg i (Inl e # rest) = ([], Propagated e)"
  by (simp add: genericRetryStrategy_def)

lemma retry_waits:
  "\<not> excluded cfg e \<Longrightarrow> int i + 1 \<le> maxRetryAttempts cfg \<Longrightarrow>
     retryWhen cfg i (Inl e # rest) =
       ((int i + 1) * scalingDuration cfg # fst (retryWhen cfg (Suc i) rest),
        snd (retryWhen cfg (Suc i) rest))"
  by (simp add: genericRetryStrategy_def excluded_def Let_def)

lemma second_factor_401:
  "map snd (requests (auth_run Service (service_new (Some alice) 30)
       [Authenticate, HttpResponse 0 login_ok, HttpResponse 1 (status_only 401)]))
     = [LoginRequest 30 ''pw'' ''alice'', TotpRequest (TotpCode ''secret'' 0) (Some (JStr ''tx''))]
   \<and> timers (auth_run Service (service_new (Some alice) 30)
       [Authenticate, HttpResponse 0 login_ok, HttpResponse 1 (status_only 401)]) = []
   \<and> rejected_with (phase (pipelines (auth_run Service (service_new (Some alice) 30)
       [Authenticate, HttpResponse 0 login_ok, HttpResponse 1 (status_only 401)]) ! 0))
     = Some (Some (JNum 401))"
  by (simp add: auth_eval)

lemma login_fails_twice:
  "timers (auth_run Service (service_new (Some alice) 30)
       [Authenticate, HttpResponse 0 (status_only 503)]) = [(10000, RetryTimer 0)]
   \<and> timers (auth_run Service (service_new (Some alice) 30)
       [Authenticate, HttpResponse 0 (status_only 503), Advance 10000,
        HttpResponse 1 (status_only 503)]) = [(10000 + 20000, RetryTimer 0)]
   \<and> resolved_with (phase (pipelines (auth_run Service (service_new (Some alice) 30)
       [Authenticate, HttpResponse 0 (status_only 503), Advance 10000,
        HttpResponse 1 (status_only 503), Advance 20000,
        HttpResponse 2 login_ok, HttpResponse 3 totp_ok]) ! 0))
     = Some (Some ''tok'', Some (JStr ''sess''), Some (JStr ''push''))"
  by (simp add: auth_eval)

text \<open>
  Claim C9. A failure whose status code is excluded, or whose attempt number exceeds
  \<open>maxRetryAttempts\<close>, is propagated at once, with no delay and no further attempt.
  Any other failure, the \<open>(i+1)\<close>-th of the run, is followed by a wait of
  \<open>(i+1) * scalingDuration\<close> and a new attempt, so two retryable failures followed by
  a success wait one and then two base delays. With the configuration of the two call
  sites, status 401 is excluded in both variants; in the service, a second-factor response
  with status 401 rejects \<open>authenticate()\<close> after one login request and one
  second-factor request, with no timer started.
\<close>

theorem retry_policy:
  "(excluded cfg e \<or> maxRetryAttempts cfg < int i + 1 \<longrightarrow>
      retryWhen cfg i (Inl e # rest) = ([], Propagated e))
   \<and> (\<not> excluded cfg e \<and> int i + 1 \<le> maxRetryAttempts cfg \<longrightarrow>
      retryWhen cfg i (Inl e # rest) =
        ((int i + 1) * scalingDuration cfg # fst (retryWhen cfg (Suc i) rest),
         snd (retryWhen cfg (Suc i) rest)))
   \<and> (\<not> excluded cfg e1 \<and> \<not> excluded cfg e2 \<and> 2 \<le> maxRetryAttempts cfg \<longrightarrow>
      retryWhen cfg 0 [Inl e1, Inl e2, Inr x] =
        ([1 * scalingDuration cfg, 2 * scalingDuration cfg], Emitted x))
   \<and> excluded (login_retry (strategy_defaults v)) (response_failure 401)
   \<and> retryWhen (login_retry (strategy_defaults v)) 0 (Inl (response_failure 401) # rest)
        = ([], Propagated (response_failure 401))
   \<and> map snd (requests (auth_run Service (service_new (Some alice) 30)
         [Authenticate, HttpResponse 0 login_ok, HttpResponse 1 (status_only 401)]))
       = [LoginRequest 30 ''pw'' ''alice'',
          TotpRequest (TotpCode ''secret'' 0) (Some (JStr ''tx''))]
   \<and> timers (auth_run Service (service_new (Some alice) 30)
         [Authenticate, HttpResponse 0 login_ok, HttpResponse 1 (status_only 401)]) = []
   \<and> rejected_with (phase (pipelines (auth_run Service (service_new (Some alice) 30)
         [Authenticate, HttpResponse 0 login_ok, HttpResponse 1 (status_only 401)]) ! 0))
       = Some (Some (JNum 401))"
proof -
  have x: "excluded (login_retry (strategy_defaults v)) (response_failure 401)"
    by (cases v)
       (simp_all add: excluded_def login_retry_def strategy_defaults_monolith_def
          strategy_defaults_service_def response_failure_def)
  have two: "\<not> excluded cfg e1 \<and> \<not> excluded cfg e2 \<and> 2 \<le> maxRetryAttempts cfg \<longrightarrow>
      retryWhen cfg 0 [Inl e1, Inl e2, Inr x] =
        ([1 * scalingDuration cfg, 2 * scalingDuration cfg], Emitted x)"
    by (simp add: genericRetryStrategy_def excluded_def Let_def)
  from x two second_factor_401 retry_excluded [of cfg e i rest] retry_exhausted [of cfg i e rest]
    retry_waits [of cfg e i rest]
    retry_excluded [OF x, of 0 rest]
  show ?thesis by blast
qed

theorem retry_policy_witness:
  "retryWhen (login_retry strategy_defaults_service) 0
       [Inl (response_failure 503), Inl (response_failure 503), Inr ()]
     = ([10000, 20000], Emitted ())
   \<and> retryWhen (login_retry strategy_defaults_service) 0
       (Inl (response_failure 503) # [Inr ()]) = ([10000], Emitted ())
   \<and> retryWhen (login_retry strategy_defaults_service) 0
       (Inl (response_failure 400) # [Inr ()]) = ([], Propagated (response_failure 400))
   \<and> retryWhen (login_retry strategy_defaults_service) 10
       (Inl (response_failure 503) # [Inr ()]) = ([], Propagated (response_failure 503))
   \<and> retryWhen (login_retry strategy_defaults_service) 0
       (Inl (response_failure 401) # [Inr ()]) = ([], Propagated (response_failure 401))"
proof -
  let ?cfg = "login_retry strategy_defaults_service"
  have cfg: "maxRetryAttempts ?cfg = 10" "scalingDuration ?cfg = 10000"
    by (simp_all add: login_retry_def)
  have ex: "\<not> excluded ?cfg (response_failure 503)" "excluded ?cfg (response_failure 400)"
    by (simp_all add: excluded_def login_retry_def strategy_defaults_service_def
        response_failure_def)
  have next_one: "retryWhen ?cfg (Suc 0) [Inr ()] = ([], Emitted ())"
    by simp
  from retry_policy [where cfg = ?cfg and e = "response_failure 503" and i = 0
        and rest = "[Inr ()]" and ?e1.0 = "response_failure 503"
        and ?e2.0 = "response_failure 503" and x = "()" and v = Service]
    retry_policy [where cfg = ?cfg and e = "response_failure 400" and i = 0
        and rest = "[Inr ()]" and ?e1.0 = "response_failure 503"
        and ?e2.0 = "response_failure 503" and x = "()" and v = Service]
    retry_policy [where cfg = ?cfg and e = "response_failure 503" and i = 10
        and rest = "[Inr ()]" and ?e1.0 = "response_failure 503"
        and ?e2.0 = "response_failure 503" and x = "()" and v = Service]
    cfg ex next_one
  show ?thesis by simp
qed

lemma update_pipeline_fields:
  "requests (update_pipeline s k f) = requests s"
  "timers (update_pipeline s k f) = timers s"
  "clock (update_pipeline s k f) = clock s"
  "subscribers (update_pipeline s k f) = subscribers s"
  "authenticationTimeout (update_pipeline s k f) = authenticationTimeout s"
  "setCredentials_log (update_pipeline s k f) = setCredentials_log s"
  "authSession_latest (update_pipeline s k f) = authSession_latest s"
  "length (pipelines (update_pipeline s k f)) = length (pipelines s)"
  "j \<noteq> k \<Longrightarrow> pipelines (update_pipeline s k f) ! j = pipelines s ! j"
  by (simp_all add: update_pipeline_def)


lemma pipeline_error_timers:
  "list_ex (\<lambda>x. snd x = RenewTimer) (timers (pipeline_error v s k e))
     = list_ex (\<lambda>x. snd x = RenewTimer) (timers s)"
  by (simp add: pipeline_error_def update_pipeline_def Let_def split: retry_decision.splits)









text \<open>
  Claim C6, on the service: after a successful \<open>authenticate()\<close> with
  \<open>authenticationTimeout = 30\<close> the promise is resolved, but nothing was pushed into
  \<open>authSession$\<close> and no timer is pending; 29 minutes later nothing has fired and no
  further request has been issued. (In the monolith the same success starts the timer,
  see \<open>monolith_renews_at_29_minutes\<close>; in the service no run of the class itself ever
  starts one, see \<open>service_never_schedules_renewal\<close>.)
\<close>

theorem service_resolves_without_renewal:
  "resolved_with (phase (pipelines (auth_run Service (service_new (Some alice) 30)
        [Authenticate, HttpResponse 0 login_ok, HttpResponse 1 totp_ok]) ! 0))
     = Some (Some ''tok'', Some (JStr ''sess''), Some (JStr ''push''))
   \<and> timers (auth_run Service (service_new (Some alice) 30)
        [Authenticate, HttpResponse 0 login_ok, HttpResponse 1 totp_ok]) = []
   \<and> authSession_latest (auth_run Service (service_new (Some alice) 30)
        [Authenticate, HttpResponse 0 login_ok, HttpResponse 1 totp_ok]) = None
   \<and> map snd (requests (auth_run Service (service_new (Some alice) 30)
        [Authenticate, HttpResponse 0 login_ok, HttpResponse 1 totp_ok, Advance 1740000]))
     = [LoginRequest 30 ''pw'' ''alice'',
        TotpRequest (TotpCode ''secret'' 0) (Some (JStr ''tx''))]
   \<and> clock (auth_run Service (service_new (Some alice) 30)
        [Authenticate, HttpResponse 0 login_ok, HttpResponse 1 totp_ok, Advance 1740000])
     = 1740000"
  by (simp add: auth_eval)

lemma monolith_authenticated_state:
  "map snd (requests monolith_authenticated)
     = [LoginRequest 30 ''pw'' ''alice'', LoginRequest 30 ''pw'' ''alice'',
        TotpRequest (TotpCode ''secret'' 0) (Some (JStr ''tx''))]
   \<and> timers monolith_authenticated = [(29 * 60 * 1000, RenewTimer)]
   \<and> clock monolith_authenticated = 0"
  by (simp add: monolith_authenticated_def auth_eval)

lemma monolith_renews_at_29_minutes:
  "map snd (requests (auth_run Monolith monolith_authenticated [Advance (29 * 60 * 1000 - 1)]))
     = map snd (requests monolith_authenticated)
   \<and> timers (auth_run Monolith monolith_authenticated [Advance (29 * 60 * 1000 - 1)])
     = [(29 * 60 * 1000, RenewTimer)]
   \<and> map snd (requests (auth_run Monolith monolith_authenticated
        [Advance (29 * 60 * 1000 - 1), Advance 1]))
     = map snd (requests monolith_authenticated) @ [LoginRequest 30 ''pw'' ''alice'']
   \<and> timers (auth_run Monolith monolith_authenticated
        [Advance (29 * 60 * 1000 - 1), Advance 1]) = []
   \<and> clock (auth_run Monolith monolith_authenticated
        [Advance (29 * 60 * 1000 - 1), Advance 1]) = 29 * 60 * 1000"
  by (simp add: monolith_authenticated_def auth_eval)

lemma monolith_success_schedules_renewal:
  assumes "request r = Inr (obj, hs)" and "is_number_200 (obj ''statusCode'')"
  shows "timers (totp_response Monolith s k tfl r) =
           timers s @ [(clock s + renewal_delay (authenticationTimeout s), RenewTimer)]"
  using assms
  by (simp add: totp_response_def check_status_def authSession_next_def update_pipeline_def)

lemma renewal_delay_minutes: "1 \<le> t \<Longrightarrow> int (renewal_delay t) = (t - 1) * 60 * 1000"
  by (simp add: renewal_delay_def)

lemma rp_update_pipeline: "renewal_pending (update_pipeline s k f) = renewal_pending s"
  by (simp add: renewal_pending_def update_pipeline_def)

lemma rp_pipeline_error: "renewal_pending (pipeline_error v s k e) = renewal_pending s"
  by (simp add: renewal_pending_def pipeline_error_timers)

lemma rp_issue_login: "renewal_pending (issue_login s k c) = renewal_pending s"
  by (simp add: renewal_pending_def issue_login_def update_pipeline_def)

lemma rp_authenticate_emits: "renewal_pending (authenticate_emits s k) = renewal_pending s"
  by (simp add: authenticate_emits_def rp_issue_login split: option.splits)

lemma rp_credentials_emit: "renewal_pending (credentials_emit v s k c) = renewal_pending s"
  by (simp add: credentials_emit_def rp_pipeline_error rp_update_pipeline split: sum.splits)

lemma rp_subscribe_pipeline: "renewal_pending (subscribe_pipeline v s k) = renewal_pending s"
  by (simp add: subscribe_pipeline_def Let_def rp_authenticate_emits rp_credentials_emit
      rp_update_pipeline)
     (simp add: renewal_pending_def)

lemma rp_deliver_Service: "renewal_pending (deliver Service s k x) = renewal_pending s"
  by (simp add: rp_update_pipeline) (simp add: renewal_pending_def)

lemma rp_login_response: "renewal_pending (login_response v s k r) = renewal_pending s"
  by (simp add: login_response_def rp_pipeline_error rp_update_pipeline
      split: sum.splits option.splits prod.splits)
     (simp add: renewal_pending_def)

lemma rp_totp_response:
  "renewal_pending (totp_response Service s k tfl r) = renewal_pending s"
  by (simp add: totp_response_def rp_pipeline_error rp_deliver_Service
      del: deliver.simps split: sum.splits option.splits prod.splits)

lemma rp_http_response:
  "renewal_pending (http_response Service s rid r) = renewal_pending s"
  by (simp add: http_response_def Let_def rp_login_response rp_totp_response
      split: option.splits prod.splits)

lemma rp_foldl_authenticate_emits:
  "renewal_pending (foldl authenticate_emits s ks) = renewal_pending s"
  by (induction ks arbitrary: s) (simp_all add: rp_authenticate_emits)

lemma rp_fire: "renewal_pending (fire v s tm) = renewal_pending s"
  by (cases tm) (simp_all add: rp_foldl_authenticate_emits rp_subscribe_pipeline)

lemma rp_foldl_fire: "renewal_pending (foldl (fire v) s tms) = renewal_pending s"
  by (induction tms arbitrary: s) (simp_all add: rp_fire)

lemma rp_clock: "renewal_pending (s\<lparr> clock := u \<rparr>) = renewal_pending s"
  by (simp add: renewal_pending_def)

lemma rp_filter:
  "\<not> renewal_pending s \<Longrightarrow>
     \<not> renewal_pending (s\<lparr> clock := u, timers := filter P (timers s) \<rparr>)"
  by (auto simp add: renewal_pending_def list_ex_iff)

lemma rp_advance: "\<not> renewal_pending s \<Longrightarrow> \<not> renewal_pending (advance v s d)"
  by (simp add: advance_def Let_def rp_foldl_fire rp_filter rp_clock)

lemma rp_foldl_credentials_emit:
  "renewal_pending (foldl (\<lambda>s' k. credentials_emit v s' k c) s ks) = renewal_pending s"
  by (induction ks arbitrary: s) (simp_all add: rp_credentials_emit)

lemma rp_setCredentials: "renewal_pending (setCredentials s c) = renewal_pending s"
  by (simp add: setCredentials_def Let_def rp_foldl_credentials_emit)
     (simp add: renewal_pending_def)

lemma rp_authenticate: "renewal_pending (authenticate s) = renewal_pending s"
  by (simp add: authenticate_def rp_subscribe_pipeline) (simp add: renewal_pending_def)

lemma rp_auth_step:
  "\<not> renewal_pending s \<Longrightarrow> \<not> is_push e \<Longrightarrow> \<not> renewal_pending (auth_step Service s e)"
  by (cases e)
     (simp_all add: rp_setCredentials rp_authenticate rp_http_response rp_advance)

lemma service_never_schedules_renewal:
  "\<not> renewal_pending s \<Longrightarrow> list_all (\<lambda>e. \<not> is_push e) evs \<Longrightarrow>
     \<not> renewal_pending (auth_run Service s evs)"
proof (induction evs arbitrary: s)
  case Nil
  then show ?case by (simp add: auth_run_def)
next
  case (Cons e evs)
  from Cons.prems have "\<not> renewal_pending (auth_step Service s e)"
    by (simp add: rp_auth_step)
  from Cons.IH [OF this] Cons.prems(2) show ?case
    by (simp add: auth_run_def)
qed

lemma service_new_no_renewal: "\<not> renewal_pending (service_new credentials t)"
  by (simp add: service_new_def renewal_pending_def Let_def)

end
